theory Spec2Isabelle
  imports Main "HOL-Library.AList" "HOL-Library.Word"
begin

section \<open>The buffer pool manager of BusTub (src/buffer/buffer_pool_manager.cpp)\<close>

subsection \<open>Types of the headers\<close>

text \<open>
  \<open>page_id_t\<close> and \<open>frame_id_t\<close> are integer types of \<open>common/config.h\<close>. Page
  identifiers are integers (the sentinel is negative); frame identifiers are only ever
  used as indices into \<open>pages_\<close>, so they are naturals here.
\<close>

type_synonym page_id_t = int
type_synonym frame_id_t = nat
type_synonym byte = "8 word"

text \<open>
  Modelled from the spec: \<open>INVALID_PAGE_ID\<close> (\<open>common/config.h\<close> is not part of the
  sources): the sentinel "invalid" identifier of a frame that holds no page.
\<close>

definition INVALID_PAGE_ID :: page_id_t where
  "INVALID_PAGE_ID = - 1"

text \<open>
  Modelled from the spec: the class \<open>Page\<close> (\<open>storage/page/page.h\<close> is not part of the
  sources): an identifier, a fixed-size byte buffer, a pin count and a dirty flag. The pin
  count is an integer, so that "never negative" is a property of the code and not of the type.
  The size of the buffer (\<open>PAGE_SIZE\<close>) is the length of \<open>data\<close>.
\<close>

record Page =
  page_id :: page_id_t
  data :: "byte list"
  pin_count :: int
  is_dirty :: bool

definition ResetMemory :: "Page \<Rightarrow> Page" where
  "ResetMemory p = p\<lparr>data := replicate (length (data p)) 0\<rparr>"

text \<open>A default-constructed page of \<open>n\<close> bytes: no identifier, zeroed, unpinned, clean.\<close>

definition new_Page :: "nat \<Rightarrow> Page" where
  "new_Page n = \<lparr>page_id = INVALID_PAGE_ID, data = replicate n 0, pin_count = 0, is_dirty = False\<rparr>"

subsection \<open>The persistent store (collaborator)\<close>

text \<open>
  Modelled from the spec: the \<open>DiskManager\<close> (its sources are not part of \<open>src/\<close>), with
  the four calls of the spec's interface. The store keeps the stored buffers
  (\<open>contents\<close>), the next identifier its allocator hands out, and a log of the calls it
  received, oldest first, which is what the claims about reads, write-backs and
  deallocation are stated on.
\<close>

datatype disk_event =
    WriteEv page_id_t "byte list"
  | ReadEv page_id_t
  | AllocateEv page_id_t
  | DeallocateEv page_id_t

record DiskManager =
  contents :: "(page_id_t \<times> byte list) list"
  next_page_id :: page_id_t
  events :: "disk_event list"

definition WritePage :: "page_id_t \<Rightarrow> byte list \<Rightarrow> DiskManager \<Rightarrow> DiskManager" where
  "WritePage pid buf d =
     d\<lparr>contents := AList.update pid buf (contents d), events := events d @ [WriteEv pid buf]\<rparr>"

text \<open>
  \<open>ReadPage\<close> fills the caller's buffer with the stored page; for an identifier that
  was never written the buffer is left as it is.
\<close>

definition ReadPage :: "page_id_t \<Rightarrow> byte list \<Rightarrow> DiskManager \<Rightarrow> byte list \<times> DiskManager" where
  "ReadPage pid buf d =
     (case map_of (contents d) pid of None \<Rightarrow> buf | Some b \<Rightarrow> b,
      d\<lparr>events := events d @ [ReadEv pid]\<rparr>)"

text \<open>The allocator is a counter: fresh among the identifiers it has handed out.\<close>

definition AllocatePage :: "DiskManager \<Rightarrow> page_id_t \<times> DiskManager" where
  "AllocatePage d =
     (next_page_id d,
      d\<lparr>next_page_id := next_page_id d + 1, events := events d @ [AllocateEv (next_page_id d)]\<rparr>)"

definition DeallocatePage :: "page_id_t \<Rightarrow> DiskManager \<Rightarrow> DiskManager" where
  "DeallocatePage pid d = d\<lparr>events := events d @ [DeallocateEv pid]\<rparr>"

definition new_DiskManager :: DiskManager where
  "new_DiskManager = \<lparr>contents = [], next_page_id = 0, events = []\<rparr>"

subsection \<open>The eviction chooser (collaborator)\<close>

text \<open>
  Modelled from the spec: the \<open>ClockReplacer\<close> (\<open>buffer/clock_replacer.h\<close> is not part
  of the sources), by its interface only. Its state is the list of the frames that are
  eligible for eviction. \<open>Pin\<close> marks a frame ineligible and \<open>Unpin\<close> marks it eligible.
  \<open>Victim\<close> is not modelled: it is the parameter \<open>victim\<close> of the operations, a function
  that, given the chooser's state, reports no frame or returns a frame together with the
  chooser's next state. What is assumed of it is said where it is used, as the hypothesis
  \<open>victim_contract\<close>: the frame returned is an eligible one, and it is no longer eligible
  afterwards (nothing else becomes eligible or ineligible). Likewise the state of a newly
  constructed chooser is a parameter of the constructor below.
\<close>

type_synonym chooser = "frame_id_t list \<Rightarrow> (frame_id_t \<times> frame_id_t list) option"

definition Pin :: "frame_id_t \<Rightarrow> frame_id_t list \<Rightarrow> frame_id_t list" where
  "Pin f r = removeAll f r"

definition Unpin :: "frame_id_t \<Rightarrow> frame_id_t list \<Rightarrow> frame_id_t list" where
  "Unpin f r = (if f \<in> set r then r else r @ [f])"

definition victim_contract :: "chooser \<Rightarrow> bool" where
  "victim_contract victim =
     (\<forall>r f r'. victim r = Some (f, r') \<longrightarrow> f \<in> set r \<and> set r' = set r - {f})"

text \<open>
  The chooser of the examples: the frame that has been eligible the longest, and none
  when no frame is eligible.
\<close>

definition oldest :: chooser where
  "oldest r = (case r of [] \<Rightarrow> None | f # fs \<Rightarrow> Some (f, removeAll f fs))"

subsection \<open>The buffer pool manager\<close>

text \<open>
  The members of \<open>BufferPoolManager\<close>. \<open>page_table_\<close> is a \<open>std::unordered_map\<close>:
  an association list with \<open>map_of\<close> for \<open>find\<close>, \<open>AList.update\<close> for
  \<open>operator[]\<close> and \<open>AList.delete\<close> for \<open>erase\<close>. \<open>free_list_\<close> is a
  \<open>std::list\<close>. \<open>log_manager_\<close> is held and never used.
\<close>

record BufferPoolManager =
  pool_size :: nat
  pages :: "Page list"
  page_table :: "(page_id_t \<times> frame_id_t) list"
  free_list :: "frame_id_t list"
  replacer :: "frame_id_t list"
  disk_manager :: DiskManager

text \<open>
  The constructor, for pages of \<open>psz\<close> bytes: every frame starts in the free list.
  \<open>r0\<close> is the state of the chooser made by \<open>new ClockReplacer(pool_size)\<close>.
\<close>

definition new_BufferPoolManager ::
  "nat \<Rightarrow> nat \<Rightarrow> DiskManager \<Rightarrow> frame_id_t list \<Rightarrow> BufferPoolManager" where
  "new_BufferPoolManager psz n dm r0 =
     \<lparr>pool_size = n, pages = replicate n (new_Page psz), page_table = [],
      free_list = [0..<n], replacer = r0, disk_manager = dm\<rparr>"

text \<open>
  \<open>GetVictimPage\<close>: the front of the free list if there is one, else the chooser's
  victim. \<open>None\<close> is the null pointer; the frame index stands for the pointer
  \<open>&pages_[frame_id]\<close>.
\<close>

definition GetVictimPage :: "chooser \<Rightarrow> BufferPoolManager \<Rightarrow> (frame_id_t \<times> BufferPoolManager) option" where
  "GetVictimPage victim s =
     (if free_list s = [] then
        (case victim (replacer s) of
           None \<Rightarrow> None
         | Some (f, r) \<Rightarrow> Some (f, s\<lparr>replacer := r\<rparr>))
      else Some (hd (free_list s), s\<lparr>free_list := tl (free_list s)\<rparr>))"

definition FetchPageImpl :: "chooser \<Rightarrow> page_id_t \<Rightarrow> BufferPoolManager \<Rightarrow> frame_id_t option \<times> BufferPoolManager" where
  "FetchPageImpl victim pid s =
     (case map_of (page_table s) pid of
        Some f \<Rightarrow>
          (let p = pages s ! f
           in (Some f, s\<lparr>replacer := Pin f (replacer s),
                         pages := (pages s)[f := p\<lparr>pin_count := pin_count p + 1\<rparr>]\<rparr>))
      | None \<Rightarrow>
          (case GetVictimPage victim s of
             None \<Rightarrow> (None, s)
           | Some (f, s1) \<Rightarrow>
               (let p = pages s1 ! f;
                    d1 = (if is_dirty p then WritePage (page_id p) (data p) (disk_manager s1)
                          else disk_manager s1);
                    pt = AList.update pid f (AList.delete (page_id p) (page_table s1));
                    p1 = (ResetMemory p)\<lparr>page_id := pid, pin_count := 1\<rparr>;
                    (buf, d2) = ReadPage pid (data p1) d1
                in (Some f, s1\<lparr>pages := (pages s1)[f := p1\<lparr>data := buf\<rparr>],
                               page_table := pt, disk_manager := d2\<rparr>))))"

definition UnpinPageImpl :: "page_id_t \<Rightarrow> bool \<Rightarrow> BufferPoolManager \<Rightarrow> bool \<times> BufferPoolManager" where
  "UnpinPageImpl pid dirty s =
     (case map_of (page_table s) pid of
        Some f \<Rightarrow>
          (let p = pages s ! f;
               p1 = (if pin_count p > 0 then p\<lparr>pin_count := pin_count p - 1\<rparr> else p);
               s1 = s\<lparr>pages := (pages s)[f := p1]\<rparr>
           in if pin_count p1 = 0 then
                (True, s1\<lparr>disk_manager := (if dirty then WritePage (page_id p1) (data p1) (disk_manager s1)
                                             else disk_manager s1),
                          replacer := Unpin f (replacer s1),
                          page_table := AList.delete pid (page_table s1)\<rparr>)
              else (False, s1))
      | None \<Rightarrow> (False, s))"

definition FlushPageImpl :: "page_id_t \<Rightarrow> BufferPoolManager \<Rightarrow> bool \<times> BufferPoolManager" where
  "FlushPageImpl pid s =
     (case map_of (page_table s) pid of
        Some f \<Rightarrow>
          (True, s\<lparr>disk_manager := WritePage pid (data (pages s ! f)) (disk_manager s),
                   replacer := Unpin f (replacer s),
                   page_table := AList.delete pid (page_table s)\<rparr>)
      | None \<Rightarrow> (False, s))"

text \<open>\<open>NewPageImpl\<close> returns the frame and the identifier written to \<open>*page_id\<close>.\<close>

definition NewPageImpl :: "chooser \<Rightarrow> BufferPoolManager \<Rightarrow> (frame_id_t \<times> page_id_t) option \<times> BufferPoolManager" where
  "NewPageImpl victim s =
     (case GetVictimPage victim s of
        None \<Rightarrow> (None, s)
      | Some (f, s1) \<Rightarrow>
          (let (pid, d1) = AllocatePage (disk_manager s1);
               p1 = ResetMemory ((pages s1 ! f)\<lparr>page_id := pid, pin_count := 0\<rparr>)
           in (Some (f, pid), s1\<lparr>pages := (pages s1)[f := p1],
                                  page_table := AList.update pid f (page_table s1),
                                  disk_manager := d1\<rparr>)))"

text \<open>
  \<open>DeletePageImpl\<close> erases the entry (line 132) and afterwards reads
  \<open>p_iterator->second\<close> again to push it on the free list (line 136). The iterator is
  invalid by then, so the source does not fix what that read yields: it is the parameter
  \<open>stale\<close>. The page itself is addressed through the pointer taken before the erase.
\<close>

definition DeletePageImpl :: "frame_id_t \<Rightarrow> page_id_t \<Rightarrow> BufferPoolManager \<Rightarrow> bool \<times> BufferPoolManager" where
  "DeletePageImpl stale pid s =
     (case map_of (page_table s) pid of
        Some f \<Rightarrow>
          (let p = pages s ! f
           in if pin_count p > 0 then (False, s)
              else (True, s\<lparr>page_table := AList.delete pid (page_table s),
                            pages := (pages s)[f := p\<lparr>pin_count := 0, is_dirty := False,
                                                     page_id := INVALID_PAGE_ID\<rparr>],
                            free_list := free_list s @ [stale]\<rparr>))
      | None \<Rightarrow> (True, s))"

text \<open>
  The loop of \<open>FlushAllPagesImpl\<close> over the entries of the page table. The order in
  which a \<open>std::unordered_map\<close> is traversed is not fixed by the source; the model visits
  the entries in the order of the list, and nothing below depends on that order.
\<close>

fun flush_entries :: "(page_id_t \<times> frame_id_t) list \<Rightarrow> BufferPoolManager \<Rightarrow> BufferPoolManager" where
  "flush_entries [] s = s"
| "flush_entries ((pid, f) # es) s =
     flush_entries es
       (s\<lparr>disk_manager := WritePage pid (data (pages s ! f)) (disk_manager s),
          replacer := Unpin f (replacer s)\<rparr>)"

definition FlushAllPagesImpl :: "BufferPoolManager \<Rightarrow> BufferPoolManager" where
  "FlushAllPagesImpl s = (flush_entries (page_table s) s)\<lparr>page_table := []\<rparr>"

subsection \<open>Sequences of calls\<close>

text \<open>
  A call of \<open>delete_page\<close> comes with the value its read of the erased entry yields.
\<close>

datatype call =
    Fetch page_id_t
  | UnpinPage page_id_t bool
  | Flush page_id_t
  | NewPage
  | DeletePage page_id_t frame_id_t
  | FlushAll

fun exec :: "chooser \<Rightarrow> call \<Rightarrow> BufferPoolManager \<Rightarrow> BufferPoolManager" where
  "exec victim (Fetch pid) s = snd (FetchPageImpl victim pid s)"
| "exec victim (UnpinPage pid dirty) s = snd (UnpinPageImpl pid dirty s)"
| "exec victim (Flush pid) s = snd (FlushPageImpl pid s)"
| "exec victim NewPage s = snd (NewPageImpl victim s)"
| "exec victim (DeletePage pid stale) s = snd (DeletePageImpl stale pid s)"
| "exec victim FlushAll s = FlushAllPagesImpl s"

fun run :: "chooser \<Rightarrow> call list \<Rightarrow> BufferPoolManager \<Rightarrow> BufferPoolManager" where
  "run victim [] s = s"
| "run victim (c # cs) s = run victim cs (exec victim c s)"

subsection \<open>Observations, invariants and example pools\<close>

text \<open>Reads among the calls the persistent store received.\<close>

fun is_read :: "disk_event \<Rightarrow> bool" where
  "is_read (ReadEv pid) = True"
| "is_read ev = False"

text \<open>Calls of \<open>fetch\<close> and \<open>unpin\<close>; calls other than \<open>delete_page\<close>.\<close>

fun fetch_or_unpin :: "call \<Rightarrow> bool" where
  "fetch_or_unpin (Fetch pid) = True"
| "fetch_or_unpin (UnpinPage pid dirty) = True"
| "fetch_or_unpin c = False"

fun no_delete :: "call \<Rightarrow> bool" where
  "no_delete (DeletePage pid stale) = False"
| "no_delete c = True"

text \<open>
  The three places a frame slot can be recorded in: the values of the page table (\<open>T\<close>),
  the free list (\<open>F\<close>) and the chooser's eligible frames (\<open>R\<close>). They hold slots
  below the capacity and no slot twice.
\<close>

definition disjoint3 :: "nat \<Rightarrow> frame_id_t set \<Rightarrow> frame_id_t set \<Rightarrow> frame_id_t set \<Rightarrow> bool" where
  "disjoint3 n T F R = (F \<inter> T = {} \<and> R \<inter> T = {} \<and> F \<inter> R = {} \<and> T \<union> F \<union> R \<subseteq> {..<n})"

definition wf_tables :: "nat \<Rightarrow> (page_id_t \<times> frame_id_t) list \<Rightarrow> frame_id_t list \<Rightarrow> frame_id_t list \<Rightarrow> bool" where
  "wf_tables n pt fl r =
     (distinct (map fst pt) \<and> distinct (map snd pt) \<and> distinct fl \<and>
      disjoint3 n (snd ` set pt) (set fl) (set r))"

definition pool_ok :: "BufferPoolManager \<Rightarrow> bool" where
  "pool_ok s = (length (pages s) = pool_size s \<and>
                wf_tables (pool_size s) (page_table s) (free_list s) (replacer s))"

text \<open>No pin count is negative, and the frames a victim can come from are unpinned.\<close>

definition pins_ok :: "BufferPoolManager \<Rightarrow> bool" where
  "pins_ok s =
     ((\<forall>p\<in>set (pages s). 0 \<le> pin_count p) \<and>
      (\<forall>f\<in>set (free_list s) \<union> set (replacer s). pin_count (pages s ! f) = 0))"



text \<open>
  Fresh pools of one and of two frames, with pages of two bytes, on an empty store and
  with a chooser that has no eligible frame.
\<close>

definition pool1 :: BufferPoolManager where
  "pool1 = new_BufferPoolManager 2 1 new_DiskManager []"

definition pool2 :: BufferPoolManager where
  "pool2 = new_BufferPoolManager 2 2 new_DiskManager []"

section \<open>Properties\<close>

subsection \<open>The collaborators\<close>

lemma oldest_contract: "victim_contract oldest"
  by (auto simp: victim_contract_def oldest_def split: list.splits)

lemma victim_contractD:
  "victim_contract victim \<Longrightarrow> victim r = Some (f, r') \<Longrightarrow> f \<in> set r \<and> set r' = set r - {f}"
  unfolding victim_contract_def by blast

lemma set_Unpin: "set (Unpin f r) = insert f (set r)"
  by (auto simp: Unpin_def)

subsection \<open>The page table as an association list\<close>

lemma snd_set_delete: "snd ` set (AList.delete k al) \<subseteq> snd ` set al"
  by (auto simp: AList.delete_eq)

lemma distinct_snd_delete: "distinct (map snd al) \<Longrightarrow> distinct (map snd (AList.delete k al))"
  by (simp add: AList.delete_eq distinct_map_filter)

lemma snd_set_update: "snd ` set (AList.update k v al) \<subseteq> insert v (snd ` set al)"
  by (induction al) auto

lemma distinct_snd_update:
  "distinct (map snd al) \<Longrightarrow> v \<notin> snd ` set al \<Longrightarrow> distinct (map snd (AList.update k v al))"
proof (induction al)
  case Nil
  then show ?case by simp
next
  case (Cons a al)
  have "snd ` set (AList.update k v al) \<subseteq> insert v (snd ` set al)"
    by (rule snd_set_update)
  with Cons show ?case by (cases a) (auto simp: image_iff)
qed

text \<open>Erasing the key under which a frame is recorded leaves no entry for that frame.\<close>

lemma evicted_frame_gone:
  "distinct (map snd al) \<Longrightarrow> map_of al k = Some f \<Longrightarrow> f \<notin> snd ` set (AList.delete k al)"
proof
  assume d: "distinct (map snd al)" and m: "map_of al k = Some f"
    and "f \<in> snd ` set (AList.delete k al)"
  then obtain k' where k': "(k', f) \<in> set al" "k' \<noteq> k"
    by (auto simp: AList.delete_eq)
  from m have "(k, f) \<in> set al" by (rule map_of_SomeD)
  with d k' show False
    by (metis distinct_map inj_onD prod.inject snd_conv)
qed


subsection \<open>Where a frame slot is recorded\<close>

lemma disjoint3_mono:
  "disjoint3 n T F R \<Longrightarrow> T' \<subseteq> T \<Longrightarrow> F' \<subseteq> F \<Longrightarrow> R' \<subseteq> R \<Longrightarrow> disjoint3 n T' F' R'"
  unfolding disjoint3_def by blast

lemma disjoint3_move_to_table:
  "disjoint3 n T F R \<Longrightarrow> f \<notin> F \<Longrightarrow> f \<notin> R \<Longrightarrow> f < n \<Longrightarrow> T' \<subseteq> insert f T \<Longrightarrow> disjoint3 n T' F R"
  unfolding disjoint3_def by blast

lemma disjoint3_move_to_replacer:
  "disjoint3 n T F R \<Longrightarrow> f \<in> T \<Longrightarrow> f \<notin> T' \<Longrightarrow> T' \<subseteq> T \<Longrightarrow> disjoint3 n T' F (insert f R)"
  unfolding disjoint3_def by blast

lemma wf_tables_delete: "wf_tables n pt fl r \<Longrightarrow> wf_tables n (AList.delete k pt) fl r"
  unfolding wf_tables_def
  using snd_set_delete [of k pt] disjoint3_mono [of n "snd ` set pt" "set fl" "set r"]
  by (simp add: distinct_snd_delete AList.distinct_delete)

lemma wf_tables_update:
  assumes "wf_tables n pt fl r" "f \<notin> set fl" "f \<notin> set r" "f \<notin> snd ` set pt" "f < n"
  shows "wf_tables n (AList.update k f pt) fl r"
proof -
  have "disjoint3 n (snd ` set (AList.update k f pt)) (set fl) (set r)"
    using assms snd_set_update [of k f pt]
    by (auto simp: wf_tables_def intro: disjoint3_move_to_table)
  with assms show ?thesis
    by (simp add: wf_tables_def distinct_snd_update AList.distinct_update)
qed

lemma wf_tables_free_front:
  assumes "wf_tables n pt fl r" "fl \<noteq> []"
  shows "wf_tables n pt (tl fl) r" "hd fl \<notin> set (tl fl)" "hd fl \<notin> set r"
    "hd fl \<notin> snd ` set pt" "hd fl < n"
proof -
  from assms(2) obtain x xs where fl: "fl = x # xs" by (cases fl) auto
  from assms(1) have d: "disjoint3 n (snd ` set pt) (set fl) (set r)" and dl: "distinct fl"
    by (simp_all add: wf_tables_def)
  from d have "disjoint3 n (snd ` set pt) (set (tl fl)) (set r)"
    by (rule disjoint3_mono) (auto simp: fl)
  with assms(1) show "wf_tables n pt (tl fl) r"
    by (simp add: wf_tables_def distinct_tl)
  from dl show "hd fl \<notin> set (tl fl)" by (simp add: fl)
  from d show "hd fl \<notin> set r" "hd fl \<notin> snd ` set pt" "hd fl < n"
    unfolding disjoint3_def fl by auto
qed

text \<open>The chooser's victim, under the contract: an eligible frame, no longer eligible.\<close>

lemma wf_tables_victim:
  assumes "wf_tables n pt fl r" "f \<in> set r" "set r' = set r - {f}"
  shows "wf_tables n pt fl r'" "f \<notin> set fl" "f \<notin> set r'" "f \<notin> snd ` set pt" "f < n"
proof -
  from assms(1) have d: "disjoint3 n (snd ` set pt) (set fl) (set r)"
    by (simp add: wf_tables_def)
  from d have "disjoint3 n (snd ` set pt) (set fl) (set r')"
    by (rule disjoint3_mono) (auto simp: assms(3))
  with assms(1) show "wf_tables n pt fl r'"
    by (simp add: wf_tables_def)
  from assms(3) show "f \<notin> set r'" by simp
  from d assms(2) show "f \<notin> set fl" "f \<notin> snd ` set pt" "f < n"
    unfolding disjoint3_def by auto
qed

lemma wf_tables_Pin: "wf_tables n pt fl r \<Longrightarrow> wf_tables n pt fl (Pin f r)"
  unfolding wf_tables_def Pin_def
  using disjoint3_mono [of n "snd ` set pt" "set fl" "set r" "snd ` set pt" "set fl" "set (removeAll f r)"]
  by auto

lemma wf_tables_resident:
  assumes "wf_tables n pt fl r" "map_of pt k = Some f"
  shows "f \<in> snd ` set pt" "f \<notin> set fl" "f \<notin> set r" "f < n"
proof -
  from assms(2) have "(k, f) \<in> set pt" by (rule map_of_SomeD)
  then show in_t: "f \<in> snd ` set pt" by force
  from assms(1) have "disjoint3 n (snd ` set pt) (set fl) (set r)"
    by (simp add: wf_tables_def)
  with in_t show "f \<notin> set fl" "f \<notin> set r" "f < n"
    unfolding disjoint3_def by auto
qed

lemma wf_tables_evict:
  assumes "wf_tables n pt fl r" "map_of pt k = Some f"
  shows "wf_tables n (AList.delete k pt) fl (Unpin f r)"
proof -
  from assms have gone: "f \<notin> snd ` set (AList.delete k pt)"
    by (simp add: wf_tables_def evicted_frame_gone)
  from assms(1) have "disjoint3 n (snd ` set pt) (set fl) (set r)"
    by (simp add: wf_tables_def)
  then have "disjoint3 n (snd ` set (AList.delete k pt)) (set fl) (insert f (set r))"
    using wf_tables_resident(1) [OF assms] gone snd_set_delete
    by (rule disjoint3_move_to_replacer)
  with assms(1) show ?thesis
    by (simp add: wf_tables_def set_Unpin distinct_snd_delete AList.distinct_delete)
qed

lemma GetVictimPage_cases:
  assumes "GetVictimPage victim s = Some (f, s1)"
  obtains
    (from_free_list) "free_list s \<noteq> []" "f = hd (free_list s)"
      "s1 = s\<lparr>free_list := tl (free_list s)\<rparr>"
  | (from_replacer) r' where "free_list s = []" "victim (replacer s) = Some (f, r')"
      "s1 = s\<lparr>replacer := r'\<rparr>"
  using assms
  by (auto simp: GetVictimPage_def split: if_splits option.splits)

text \<open>Victim selection touches only the free list or the chooser.\<close>

lemma GetVictimPage_fields:
  assumes "GetVictimPage victim s = Some (f, s1)"
  shows "pages s1 = pages s" "set (free_list s1) \<subseteq> set (free_list s)"
    "disk_manager s1 = disk_manager s" "page_table s1 = page_table s"
    "pool_size s1 = pool_size s"
proof -
  from assms
  have "pages s1 = pages s \<and> set (free_list s1) \<subseteq> set (free_list s) \<and>
    disk_manager s1 = disk_manager s \<and> page_table s1 = page_table s \<and>
    pool_size s1 = pool_size s"
  proof (cases rule: GetVictimPage_cases)
    case from_free_list
    then show ?thesis by (cases "free_list s") auto
  next
    case from_replacer
    then show ?thesis by auto
  qed
  then show "pages s1 = pages s" "set (free_list s1) \<subseteq> set (free_list s)"
    "disk_manager s1 = disk_manager s" "page_table s1 = page_table s"
    "pool_size s1 = pool_size s"
    by blast+
qed

lemma GetVictimPage_source:
  assumes "victim_contract victim" "GetVictimPage victim s = Some (f, s1)"
  shows "f \<in> set (free_list s) \<union> set (replacer s)"
    "set (replacer s1) \<subseteq> set (replacer s)"
proof -
  from assms(2)
  have "f \<in> set (free_list s) \<union> set (replacer s) \<and> set (replacer s1) \<subseteq> set (replacer s)"
  proof (cases rule: GetVictimPage_cases)
    case from_free_list
    then show ?thesis by simp
  next
    case (from_replacer r')
    with victim_contractD [OF assms(1) from_replacer(2)] show ?thesis by auto
  qed
  then show "f \<in> set (free_list s) \<union> set (replacer s)"
    "set (replacer s1) \<subseteq> set (replacer s)"
    by blast+
qed

lemma GetVictimPage_ok:
  assumes "victim_contract victim" "pool_ok s" "GetVictimPage victim s = Some (f, s1)"
  shows "pool_ok s1" "f \<notin> set (free_list s1)" "f \<notin> set (replacer s1)"
    "f \<notin> snd ` set (page_table s1)" "f < pool_size s1"
proof -
  from assms(2) have w: "wf_tables (pool_size s) (page_table s) (free_list s) (replacer s)"
    and l: "length (pages s) = pool_size s"
    by (simp_all add: pool_ok_def)
  from assms(3)
  have "pool_ok s1 \<and> f \<notin> set (free_list s1) \<and> f \<notin> set (replacer s1) \<and>
        f \<notin> snd ` set (page_table s1) \<and> f < pool_size s1"
  proof (cases rule: GetVictimPage_cases)
    case from_free_list
    with wf_tables_free_front [OF w from_free_list(1)] l show ?thesis
      by (simp add: pool_ok_def)
  next
    case (from_replacer r')
    from victim_contractD [OF assms(1) from_replacer(2)]
    have "f \<in> set (replacer s)" "set r' = set (replacer s) - {f}"
      by blast+
    from wf_tables_victim [OF w this] from_replacer l show ?thesis
      by (simp add: pool_ok_def)
  qed
  then show "pool_ok s1" "f \<notin> set (free_list s1)" "f \<notin> set (replacer s1)"
    "f \<notin> snd ` set (page_table s1)" "f < pool_size s1"
    by blast+
qed

text \<open>What a fetch that misses and finds a victim leaves behind, field by field.\<close>

lemma FetchPageImpl_miss:
  assumes "map_of (page_table s) pid = None" "GetVictimPage victim s = Some (f, s1)"
  shows "fst (FetchPageImpl victim pid s) = Some f"
    "pages (snd (FetchPageImpl victim pid s)) =
       (pages s1)[f := (pages s1 ! f)\<lparr>page_id := pid, pin_count := 1,
          data := fst (ReadPage pid (replicate (length (data (pages s1 ! f))) 0)
                   (if is_dirty (pages s1 ! f)
                    then WritePage (page_id (pages s1 ! f)) (data (pages s1 ! f)) (disk_manager s1)
                    else disk_manager s1))\<rparr>]"
    "page_table (snd (FetchPageImpl victim pid s)) =
       AList.update pid f (AList.delete (page_id (pages s1 ! f)) (page_table s1))"
    "disk_manager (snd (FetchPageImpl victim pid s)) =
       snd (ReadPage pid (replicate (length (data (pages s1 ! f))) 0)
             (if is_dirty (pages s1 ! f)
              then WritePage (page_id (pages s1 ! f)) (data (pages s1 ! f)) (disk_manager s1)
              else disk_manager s1))"
    "free_list (snd (FetchPageImpl victim pid s)) = free_list s1"
    "replacer (snd (FetchPageImpl victim pid s)) = replacer s1"
    "pool_size (snd (FetchPageImpl victim pid s)) = pool_size s1"
  using assms
  by (simp_all add: FetchPageImpl_def Let_def ResetMemory_def split: prod.splits)

lemma FetchPageImpl_ok:
  assumes "victim_contract victim" "pool_ok s"
  shows "pool_ok (snd (FetchPageImpl victim pid s))"
proof (cases "map_of (page_table s) pid")
  case (Some f)
  with assms(2) show ?thesis
    by (simp add: FetchPageImpl_def Let_def pool_ok_def wf_tables_Pin)
next
  case None
  show ?thesis
  proof (cases "GetVictimPage victim s")
    case None
    with \<open>map_of (page_table s) pid = None\<close> assms(2) show ?thesis
      by (simp add: FetchPageImpl_def)
  next
    case (Some a)
    obtain f s1 where a: "a = (f, s1)" by (cases a)
    note v = GetVictimPage_ok [OF assms Some [unfolded a]]
    from v(1) have w: "wf_tables (pool_size s1) (page_table s1) (free_list s1) (replacer s1)"
      and l: "length (pages s1) = pool_size s1"
      by (simp_all add: pool_ok_def)
    let ?pt = "AList.delete (page_id (pages s1 ! f)) (page_table s1)"
    have "wf_tables (pool_size s1) ?pt (free_list s1) (replacer s1)"
      using w by (rule wf_tables_delete)
    moreover have "f \<notin> snd ` set ?pt"
      using v(4) snd_set_delete [of "page_id (pages s1 ! f)" "page_table s1"] by blast
    ultimately have "wf_tables (pool_size s1) (AList.update pid f ?pt) (free_list s1) (replacer s1)"
      using v(2,3,5) by (intro wf_tables_update)
    with l show ?thesis
      by (simp add: pool_ok_def FetchPageImpl_miss [OF \<open>map_of (page_table s) pid = None\<close> Some [unfolded a]])
  qed
qed

lemma UnpinPageImpl_ok:
  assumes "pool_ok s"
  shows "pool_ok (snd (UnpinPageImpl pid dirty s))"
proof (cases "map_of (page_table s) pid")
  case None
  with assms show ?thesis by (simp add: UnpinPageImpl_def)
next
  case (Some f)
  from assms have "wf_tables (pool_size s) (page_table s) (free_list s) (replacer s)"
    by (simp add: pool_ok_def)
  from wf_tables_evict [OF this Some] assms Some show ?thesis
    by (simp add: UnpinPageImpl_def Let_def pool_ok_def)
qed

lemma FlushPageImpl_ok:
  assumes "pool_ok s"
  shows "pool_ok (snd (FlushPageImpl pid s))"
proof (cases "map_of (page_table s) pid")
  case None
  with assms show ?thesis by (simp add: FlushPageImpl_def)
next
  case (Some f)
  from assms have "wf_tables (pool_size s) (page_table s) (free_list s) (replacer s)"
    by (simp add: pool_ok_def)
  from wf_tables_evict [OF this Some] assms Some show ?thesis
    by (simp add: FlushPageImpl_def pool_ok_def)
qed

lemma NewPageImpl_ok:
  assumes "victim_contract victim" "pool_ok s"
  shows "pool_ok (snd (NewPageImpl victim s))"
proof (cases "GetVictimPage victim s")
  case None
  with assms(2) show ?thesis by (simp add: NewPageImpl_def)
next
  case (Some a)
  obtain f s1 where a: "a = (f, s1)" by (cases a)
  note v = GetVictimPage_ok [OF assms Some [unfolded a]]
  from v(1) have w: "wf_tables (pool_size s1) (page_table s1) (free_list s1) (replacer s1)"
    and l: "length (pages s1) = pool_size s1"
    by (simp_all add: pool_ok_def)
  have "wf_tables (pool_size s1) (AList.update (next_page_id (disk_manager s1)) f (page_table s1))
          (free_list s1) (replacer s1)"
    using w v(2,3,4,5) by (rule wf_tables_update)
  with l Some a show ?thesis
    by (simp add: NewPageImpl_def AllocatePage_def Let_def pool_ok_def)
qed

lemma flush_entries_fields:
  "pool_size (flush_entries es s) = pool_size s"
  "pages (flush_entries es s) = pages s"
  "free_list (flush_entries es s) = free_list s"
  "page_table (flush_entries es s) = page_table s"
  by (induction es s rule: flush_entries.induct) simp_all

lemma flush_entries_replacer:
  "set (replacer (flush_entries es s)) = set (replacer s) \<union> snd ` set es"
  by (induction es s rule: flush_entries.induct) (auto simp: set_Unpin)

lemma FlushAllPagesImpl_ok:
  assumes "pool_ok s"
  shows "pool_ok (FlushAllPagesImpl s)"
proof -
  from assms have "disjoint3 (pool_size s) (snd ` set (page_table s)) (set (free_list s)) (set (replacer s))"
    by (simp add: pool_ok_def wf_tables_def)
  then have "disjoint3 (pool_size s) {} (set (free_list s)) (set (replacer s) \<union> snd ` set (page_table s))"
    unfolding disjoint3_def by blast
  with assms show ?thesis
    by (simp add: FlushAllPagesImpl_def pool_ok_def wf_tables_def flush_entries_fields flush_entries_replacer)
qed

lemma exec_ok: "victim_contract victim \<Longrightarrow> no_delete c \<Longrightarrow> pool_ok s \<Longrightarrow> pool_ok (exec victim c s)"
  by (cases c)
    (simp_all add: FetchPageImpl_ok UnpinPageImpl_ok FlushPageImpl_ok NewPageImpl_ok
      FlushAllPagesImpl_ok)

lemma run_ok:
  "victim_contract victim \<Longrightarrow> list_all no_delete cs \<Longrightarrow> pool_ok s \<Longrightarrow> pool_ok (run victim cs s)"
  by (induction cs arbitrary: s) (simp_all add: exec_ok)

lemma new_BufferPoolManager_ok: "pool_ok (new_BufferPoolManager psz n dm [])"
  by (auto simp: new_BufferPoolManager_def pool_ok_def wf_tables_def disjoint3_def)

lemma exec_pool_size: "pool_size (exec victim c s) = pool_size s"
proof (cases c)
  case (Fetch pid)
  then show ?thesis
    by (auto simp: FetchPageImpl_def Let_def dest: GetVictimPage_fields(5)
        split: option.splits prod.splits)
next
  case (UnpinPage pid dirty)
  then show ?thesis by (simp add: UnpinPageImpl_def Let_def split: option.splits)
next
  case (Flush pid)
  then show ?thesis by (simp add: FlushPageImpl_def split: option.splits)
next
  case NewPage
  then show ?thesis
    by (auto simp: NewPageImpl_def Let_def dest: GetVictimPage_fields(5)
        split: option.splits prod.splits)
next
  case (DeletePage pid stale)
  then show ?thesis by (simp add: DeletePageImpl_def Let_def split: option.splits)
next
  case FlushAll
  then show ?thesis by (simp add: FlushAllPagesImpl_def flush_entries_fields)
qed

lemma run_pool_size: "pool_size (run victim cs s) = pool_size s"
  by (induction cs arbitrary: s) (simp_all add: exec_pool_size)

subsection \<open>Pin counts\<close>

lemma pins_ok_step:
  assumes "pins_ok s" "pages s' = (pages s)[f := p]" "0 \<le> pin_count p"
    "f \<notin> set (free_list s')" "f \<notin> set (replacer s')"
    "set (free_list s') \<subseteq> set (free_list s)" "set (replacer s') \<subseteq> set (replacer s)"
  shows "pins_ok s'"
  unfolding pins_ok_def
proof (intro conjI ballI)
  fix q assume "q \<in> set (pages s')"
  then have "q = p \<or> q \<in> set (pages s)"
    using set_update_subset_insert [of "pages s" f p] assms(2) by auto
  with assms(1,3) show "0 \<le> pin_count q" by (auto simp: pins_ok_def)
next
  fix g assume g: "g \<in> set (free_list s') \<union> set (replacer s')"
  with assms(4,5) have "g \<noteq> f" by blast
  moreover from g assms(6,7) have "g \<in> set (free_list s) \<union> set (replacer s)" by blast
  ultimately show "pin_count (pages s' ! g) = 0"
    using assms(1,2) by (simp add: pins_ok_def)
qed

lemma pins_ok_step_zero:
  assumes "pins_ok s" "pages s' = (pages s)[f := p]" "pin_count p = 0" "f < length (pages s)"
    "set (free_list s') \<union> set (replacer s') \<subseteq> insert f (set (free_list s) \<union> set (replacer s))"
  shows "pins_ok s'"
  unfolding pins_ok_def
proof (intro conjI ballI)
  fix q assume "q \<in> set (pages s')"
  then have "q = p \<or> q \<in> set (pages s)"
    using set_update_subset_insert [of "pages s" f p] assms(2) by auto
  with assms(1,3) show "0 \<le> pin_count q" by (auto simp: pins_ok_def)
next
  fix g assume g: "g \<in> set (free_list s') \<union> set (replacer s')"
  show "pin_count (pages s' ! g) = 0"
  proof (cases "g = f")
    case True
    with assms(2,3,4) show ?thesis by simp
  next
    case False
    with g assms(5) have "g \<in> set (free_list s) \<union> set (replacer s)" by blast
    with False assms(1,2) show ?thesis by (simp add: pins_ok_def)
  qed
qed

lemma FetchPageImpl_pins:
  assumes "victim_contract victim" "pool_ok s" "pins_ok s"
  shows "pins_ok (snd (FetchPageImpl victim pid s))"
proof (cases "map_of (page_table s) pid")
  case (Some f)
  from assms(2) have w: "wf_tables (pool_size s) (page_table s) (free_list s) (replacer s)"
    and l: "length (pages s) = pool_size s"
    by (simp_all add: pool_ok_def)
  note r = wf_tables_resident [OF w Some]
  from r(4) l assms(3) have "0 \<le> pin_count (pages s ! f)"
    by (simp add: pins_ok_def)
  then have nonneg: "0 \<le> pin_count (pages s ! f) + 1" by simp
  from assms(3) show ?thesis
  proof (rule pins_ok_step [where f = f and p = "(pages s ! f)\<lparr>pin_count := pin_count (pages s ! f) + 1\<rparr>"])
  qed (use Some r(2) nonneg in \<open>auto simp: FetchPageImpl_def Let_def Pin_def\<close>)
next
  case None
  show ?thesis
  proof (cases "GetVictimPage victim s")
    case None
    with \<open>map_of (page_table s) pid = None\<close> assms(3) show ?thesis
      by (simp add: FetchPageImpl_def)
  next
    case (Some a)
    obtain f s1 where a: "a = (f, s1)" by (cases a)
    note v = GetVictimPage_ok [OF assms(1,2) Some [unfolded a]]
    note e = GetVictimPage_fields [OF Some [unfolded a]]
    note o = GetVictimPage_source [OF assms(1) Some [unfolded a]]
    note m = FetchPageImpl_miss [OF \<open>map_of (page_table s) pid = None\<close> Some [unfolded a]]
    from assms(3) m(2) [unfolded e(1)] show ?thesis
      by (rule pins_ok_step) (simp_all add: m v e o)
  qed
qed

lemma UnpinPageImpl_pins:
  assumes "pool_ok s" "pins_ok s"
  shows "pins_ok (snd (UnpinPageImpl pid dirty s))"
proof (cases "map_of (page_table s) pid")
  case None
  with assms(2) show ?thesis by (simp add: UnpinPageImpl_def)
next
  case (Some f)
  from assms(1) have w: "wf_tables (pool_size s) (page_table s) (free_list s) (replacer s)"
    and l: "length (pages s) = pool_size s"
    by (simp_all add: pool_ok_def)
  note r = wf_tables_resident [OF w Some]
  let ?p = "pages s ! f"
  let ?p1 = "if 0 < pin_count ?p then ?p\<lparr>pin_count := pin_count ?p - 1\<rparr> else ?p"
  from r(4) l assms(2) have nonneg: "0 \<le> pin_count ?p"
    by (simp add: pins_ok_def)
  show ?thesis
  proof (cases "pin_count ?p1 = 0")
    case True
    from assms(2) show ?thesis
    proof (rule pins_ok_step_zero [where f = f and p = ?p1])
    qed (use Some True r(4) l in \<open>auto simp: UnpinPageImpl_def Let_def set_Unpin\<close>)
  next
    case False
    from assms(2) show ?thesis
    proof (rule pins_ok_step [where f = f and p = ?p1])
    qed (use Some False r(2,3) nonneg in \<open>auto simp: UnpinPageImpl_def Let_def\<close>)
  qed
qed

lemma fetch_or_unpin_no_delete: "fetch_or_unpin c \<Longrightarrow> no_delete c"
  by (cases c) simp_all

lemma exec_pins:
  "victim_contract victim \<Longrightarrow> fetch_or_unpin c \<Longrightarrow> pool_ok s \<Longrightarrow> pins_ok s \<Longrightarrow>
   pins_ok (exec victim c s)"
  by (cases c) (simp_all add: FetchPageImpl_pins UnpinPageImpl_pins)

lemma run_pins:
  "victim_contract victim \<Longrightarrow> list_all fetch_or_unpin cs \<Longrightarrow> pool_ok s \<Longrightarrow> pins_ok s \<Longrightarrow>
   pins_ok (run victim cs s)"
  by (induction cs arbitrary: s) (simp_all add: exec_pins exec_ok fetch_or_unpin_no_delete)

lemma new_BufferPoolManager_pins: "pins_ok (new_BufferPoolManager psz n dm [])"
  by (simp add: new_BufferPoolManager_def pins_ok_def new_Page_def)

subsection \<open>The frames of the free list\<close>











subsection \<open>The dirty flag\<close>









subsection \<open>What the operations leave behind\<close>

lemma GetVictimPage_keeps_frames:
  "GetVictimPage victim s = Some (f, s1) \<Longrightarrow> pages s1 = pages s \<and> disk_manager s1 = disk_manager s"
  by (simp add: GetVictimPage_fields)

lemma DeletePageImpl_disk: "disk_manager (snd (DeletePageImpl stale pid s)) = disk_manager s"
  by (simp add: DeletePageImpl_def Let_def split: option.splits)

text \<open>
  What \<open>NewPageImpl\<close> does when a victim is found: the frame is entered in the page table
  under the allocator's identifier, its buffer is zeroed, and its pin count is 0.
\<close>

lemma NewPageImpl_success:
  assumes "GetVictimPage victim s = Some (f, s1)" "f < length (pages s)"
  shows "fst (NewPageImpl victim s) = Some (f, next_page_id (disk_manager s))"
    "map_of (page_table (snd (NewPageImpl victim s))) (next_page_id (disk_manager s)) = Some f"
    "data (pages (snd (NewPageImpl victim s)) ! f) = replicate (length (data (pages s ! f))) 0"
    "pin_count (pages (snd (NewPageImpl victim s)) ! f) = 0"
    "is_dirty (pages (snd (NewPageImpl victim s)) ! f) = is_dirty (pages s ! f)"
    "events (disk_manager (snd (NewPageImpl victim s))) =
       events (disk_manager s) @ [AllocateEv (next_page_id (disk_manager s))]"
  using assms GetVictimPage_keeps_frames [OF assms(1)]
  by (simp_all add: NewPageImpl_def AllocatePage_def Let_def ResetMemory_def AList.update_conv')

lemma NewPageImpl_fails_iff:
  "fst (NewPageImpl victim s) = None \<longleftrightarrow> GetVictimPage victim s = None"
  by (auto simp: NewPageImpl_def Let_def split: option.splits prod.splits)

text \<open>
  The identifier \<open>new_page\<close> hands out is the allocator's next one, whether or not a page
  with that identifier is resident: after \<open>fetch(0)\<close> on a fresh pool of two frames,
  \<open>new_page\<close> returns identifier 0 in frame 1 and takes over the entry of page 0, which
  frame 0 still holds pinned.
\<close>

lemma new_page_takes_resident_identifier:
  "map_of (page_table (run oldest [Fetch 0] pool2)) 0 = Some 0 \<and>
   fst (NewPageImpl oldest (run oldest [Fetch 0] pool2)) = Some (1, 0) \<and>
   page_table (run oldest [Fetch 0, NewPage] pool2) = [(0, 1)] \<and>
   page_id (pages (run oldest [Fetch 0, NewPage] pool2) ! 0) = 0 \<and>
   pin_count (pages (run oldest [Fetch 0, NewPage] pool2) ! 0) = 1"
  by code_simp


text \<open>
  The scenario of the specification on a pool of capacity 2: two \<open>new_page\<close> calls
  return the identifiers 0 and 1, a third finds no frame, and after \<open>unpin(0, false)\<close>
  the next \<open>new_page\<close> reuses frame 0.
\<close>

lemma capacity_two_scenario:
  "fst (NewPageImpl oldest pool2) = Some (0, 0) \<and>
   fst (NewPageImpl oldest (run oldest [NewPage] pool2)) = Some (1, 1) \<and>
   fst (NewPageImpl oldest (run oldest [NewPage, NewPage] pool2)) = None \<and>
   fst (UnpinPageImpl 0 False (run oldest [NewPage, NewPage, NewPage] pool2)) \<and>
   fst (NewPageImpl oldest (run oldest [NewPage, NewPage, NewPage, UnpinPage 0 False] pool2)) = Some (0, 2)"
  by code_simp

text \<open>
  \<open>unpin\<close> erases the page-table entry but leaves the identifier in the frame, so the
  \<open>erase(page->page_id_)\<close> of a later \<open>fetch\<close> can hit the entry of another frame:
  page 7, fetched again into frame 1 and pinned, loses its entry when frame 0 is reused.
\<close>

lemma fetch_erases_live_entry:
  "map_of (page_table (run oldest [Fetch 7, UnpinPage 7 False, Fetch 7] pool2)) 7 = Some 1 \<and>
   pin_count (pages (run oldest [Fetch 7, UnpinPage 7 False, Fetch 7] pool2) ! 1) = 1 \<and>
   fst (FetchPageImpl oldest 8 (run oldest [Fetch 7, UnpinPage 7 False, Fetch 7] pool2)) = Some 0 \<and>
   page_table (run oldest [Fetch 7, UnpinPage 7 False, Fetch 7, Fetch 8] pool2) = [(8, 0)] \<and>
   page_id (pages (run oldest [Fetch 7, UnpinPage 7 False, Fetch 7, Fetch 8] pool2) ! 1) = 7 \<and>
   pin_count (pages (run oldest [Fetch 7, UnpinPage 7 False, Fetch 7, Fetch 8] pool2) ! 1) = 1"
  by code_simp

text \<open>
  The read of the erased entry in \<open>DeletePageImpl\<close> decides which frame goes on the free
  list. When it yields 0 where the lookup found frame 1, frame 0 is on the free list while
  it is still a value of the page table.
\<close>

lemma delete_page_stale_read:
  "map_of (page_table (run oldest [NewPage, NewPage] pool2)) 1 = Some 1 \<and>
   free_list (snd (DeletePageImpl 0 1 (run oldest [NewPage, NewPage] pool2))) = [0] \<and>
   page_table (snd (DeletePageImpl 0 1 (run oldest [NewPage, NewPage] pool2))) = [(0, 0)]"
  by code_simp

section \<open>The claims\<close>

subsection \<open>C1\<close>

text \<open>
  C1 says that \<open>unpin(id, true)\<close> on a resident, pinned page marks its frame dirty, that the
  mark stays, and that the page is therefore written back before its frame is reused and at
  the latest when its pin count reaches zero. \<open>UnpinPageImpl\<close> never assigns \<open>is_dirty_\<close>:
  it uses its argument only in the call in which the pin count reaches zero, and no frame
  is ever dirty (\<open>never_dirty\<close>). With page 7
  fetched twice, \<open>unpin(7, true)\<close> leaves it resident, pinned and not dirty; after
  \<open>unpin(7, false)\<close> the pin count is zero and the frame is reused for page 8, and the
  persistent store has received two reads and no write.
\<close>

theorem unpin_dirty_flag_lost:
  "map_of (page_table (run oldest [Fetch 7, Fetch 7, UnpinPage 7 True] pool1)) 7 = Some 0 \<and>
   pin_count (pages (run oldest [Fetch 7, Fetch 7, UnpinPage 7 True] pool1) ! 0) = 1 \<and>
   \<not> is_dirty (pages (run oldest [Fetch 7, Fetch 7, UnpinPage 7 True] pool1) ! 0) \<and>
   pin_count (pages (run oldest [Fetch 7, Fetch 7, UnpinPage 7 True, UnpinPage 7 False] pool1) ! 0) = 0 \<and>
   events (disk_manager (run oldest [Fetch 7, Fetch 7, UnpinPage 7 True, UnpinPage 7 False] pool1)) =
     [ReadEv 7] \<and>
   page_id (pages (run oldest [Fetch 7, Fetch 7, UnpinPage 7 True, UnpinPage 7 False, Fetch 8] pool1) ! 0) = 8 \<and>
   events (disk_manager (run oldest [Fetch 7, Fetch 7, UnpinPage 7 True, UnpinPage 7 False, Fetch 8] pool1)) =
     [ReadEv 7, ReadEv 8]"
  by code_simp

subsection \<open>C2\<close>

text \<open>
  C2 says that after a successful \<open>new_page\<close> the returned frame is resident, has pin
  count 1 and a zeroed buffer. \<open>NewPageImpl\<close> sets \<open>pin_count_ = 0\<close>, where
  \<open>FetchPageImpl\<close> sets 1 for the page it installs: on a fresh pool of one frame
  \<open>new_page\<close> returns frame 0 with identifier 0, resident and zeroed, with pin count 0.
\<close>

theorem new_page_pin_count_zero:
  "fst (NewPageImpl oldest pool1) = Some (0, 0) \<and>
   map_of (page_table (snd (NewPageImpl oldest pool1))) 0 = Some 0 \<and>
   data (pages (snd (NewPageImpl oldest pool1)) ! 0) = [0, 0] \<and>
   pin_count (pages (snd (NewPageImpl oldest pool1)) ! 0) = 0"
  by code_simp

subsection \<open>C3\<close>

text \<open>
  C3, as amended: in every state reached from a freshly constructed pool by \<open>fetch\<close>,
  \<open>unpin\<close>, \<open>flush\<close>, \<open>new_page\<close> and \<open>flush_all\<close> calls, in any order, the free
  list is disjoint from the page table's value set, so each of these operations preserves
  the disjointness. (A slot need not be in either collection, and nothing is said of
  \<open>delete_page\<close>.) It is assumed of the eviction chooser that it starts with no eligible
  frame and that the victim it selects is an eligible frame that is no longer eligible
  afterwards.
\<close>

theorem free_list_disjoint_page_table:
  assumes "victim_contract victim" "r0 = []" "list_all no_delete cs"
  shows "set (free_list (run victim cs (new_BufferPoolManager psz n dm r0))) \<inter>
         snd ` set (page_table (run victim cs (new_BufferPoolManager psz n dm r0))) = {}"
proof -
  have "pool_ok (run victim cs (new_BufferPoolManager psz n dm r0))"
    unfolding assms(2) using assms(1,3) new_BufferPoolManager_ok by (rule run_ok)
  then show ?thesis
    by (simp add: pool_ok_def wf_tables_def disjoint3_def)
qed

text \<open>
  On a pool of five frames every one of the five operations does something, and at the
  end frame 4 is on the free list and frame 3 holds page 9.
\<close>

theorem free_list_disjoint_page_table_witness:
  "victim_contract oldest \<and>
   list_all no_delete [NewPage, Fetch 7, UnpinPage 7 False, Flush 0, Fetch 8, FlushAll, Fetch 9] \<and>
   free_list (run oldest [NewPage, Fetch 7, UnpinPage 7 False, Flush 0, Fetch 8, FlushAll, Fetch 9]
          (new_BufferPoolManager 2 5 new_DiskManager [])) = [4] \<and>
   page_table (run oldest [NewPage, Fetch 7, UnpinPage 7 False, Flush 0, Fetch 8, FlushAll, Fetch 9]
          (new_BufferPoolManager 2 5 new_DiskManager [])) = [(9, 3)] \<and>
   set (free_list (run oldest [NewPage, Fetch 7, UnpinPage 7 False, Flush 0, Fetch 8, FlushAll, Fetch 9]
          (new_BufferPoolManager 2 5 new_DiskManager []))) \<inter>
   snd ` set (page_table (run oldest [NewPage, Fetch 7, UnpinPage 7 False, Flush 0, Fetch 8, FlushAll, Fetch 9]
          (new_BufferPoolManager 2 5 new_DiskManager []))) = {}"
proof -
  have h1: "list_all no_delete [NewPage, Fetch 7, UnpinPage 7 False, Flush 0, Fetch 8, FlushAll, Fetch 9]"
    by simp
  have h2: "free_list (run oldest [NewPage, Fetch 7, UnpinPage 7 False, Flush 0, Fetch 8, FlushAll, Fetch 9]
          (new_BufferPoolManager 2 5 new_DiskManager [])) = [4]"
    by code_simp
  have h3: "page_table (run oldest [NewPage, Fetch 7, UnpinPage 7 False, Flush 0, Fetch 8, FlushAll, Fetch 9]
          (new_BufferPoolManager 2 5 new_DiskManager [])) = [(9, 3)]"
    by code_simp
  from free_list_disjoint_page_table [OF oldest_contract refl h1, of 2 5 new_DiskManager]
    oldest_contract h1 h2 h3
  show ?thesis by blast
qed

text \<open>
  The claim as written fails: once \<open>unpin\<close> has brought the pin count of page 7 to zero,
  slot 0 of a pool of one frame is neither in the free list nor a value of the page table
  (it is with the eviction chooser).
\<close>

theorem slot_in_neither_collection:
  "0 < pool_size (run oldest [Fetch 7, UnpinPage 7 False] pool1) \<and>
   0 \<notin> set (free_list (run oldest [Fetch 7, UnpinPage 7 False] pool1)) \<and>
   0 \<notin> snd ` set (page_table (run oldest [Fetch 7, UnpinPage 7 False] pool1)) \<and>
   0 \<in> set (replacer (run oldest [Fetch 7, UnpinPage 7 False] pool1))"
  by code_simp

subsection \<open>C4\<close>

text \<open>
  C4: after any sequence of \<open>fetch\<close> and \<open>unpin\<close> calls on a freshly constructed pool,
  no frame has a negative pin count, and the frame that victim selection returns, which is
  the frame \<open>fetch\<close> and \<open>new_page\<close> evict, does not have a pin count greater than 0.
  It is assumed of the eviction chooser that it starts with no eligible frame and that the
  victim it selects is an eligible frame that is no longer eligible afterwards.
\<close>

theorem pin_counts_and_victims:
  assumes "victim_contract victim" "r0 = []" "list_all fetch_or_unpin cs"
  shows "(\<forall>f<n. 0 \<le> pin_count (pages (run victim cs (new_BufferPoolManager psz n dm r0)) ! f)) \<and>
         (\<forall>f s1. GetVictimPage victim (run victim cs (new_BufferPoolManager psz n dm r0)) = Some (f, s1) \<longrightarrow>
                 \<not> 0 < pin_count (pages (run victim cs (new_BufferPoolManager psz n dm r0)) ! f))"
proof -
  let ?s = "run victim cs (new_BufferPoolManager psz n dm r0)"
  from assms(3) have nd: "list_all no_delete cs"
    by (auto simp: list_all_iff fetch_or_unpin_no_delete)
  have ok: "pool_ok ?s"
    unfolding assms(2) using assms(1) nd new_BufferPoolManager_ok by (rule run_ok)
  have pins: "pins_ok ?s"
    unfolding assms(2)
    using assms(1,3) new_BufferPoolManager_ok new_BufferPoolManager_pins by (rule run_pins)
  have "pool_size ?s = n"
    by (simp add: run_pool_size new_BufferPoolManager_def)
  with ok have len: "length (pages ?s) = n"
    by (simp add: pool_ok_def)
  have "0 \<le> pin_count (pages ?s ! f)" if "f < n" for f
    using pins that len by (simp add: pins_ok_def)
  moreover have "\<not> 0 < pin_count (pages ?s ! f)" if "GetVictimPage victim ?s = Some (f, s1)" for f s1
    using GetVictimPage_source(1) [OF assms(1) that] pins by (simp add: pins_ok_def)
  ultimately show ?thesis by blast
qed

theorem pin_counts_and_victims_witness:
  "victim_contract oldest \<and>
   list_all fetch_or_unpin [Fetch 7, Fetch 7, UnpinPage 7 True, UnpinPage 7 False] \<and>
   0 \<le> pin_count (pages (run oldest [Fetch 7, Fetch 7, UnpinPage 7 True, UnpinPage 7 False]
        (new_BufferPoolManager 2 1 new_DiskManager [])) ! 0) \<and>
   map_option fst (GetVictimPage oldest (run oldest [Fetch 7, Fetch 7, UnpinPage 7 True, UnpinPage 7 False]
        (new_BufferPoolManager 2 1 new_DiskManager []))) = Some 0 \<and>
   \<not> 0 < pin_count (pages (run oldest [Fetch 7, Fetch 7, UnpinPage 7 True, UnpinPage 7 False]
        (new_BufferPoolManager 2 1 new_DiskManager [])) ! 0)"
proof -
  have h2: "list_all fetch_or_unpin [Fetch 7, Fetch 7, UnpinPage 7 True, UnpinPage 7 False]"
    by simp
  have h3: "map_option fst (GetVictimPage oldest
        (run oldest [Fetch 7, Fetch 7, UnpinPage 7 True, UnpinPage 7 False]
          (new_BufferPoolManager 2 1 new_DiskManager []))) = Some 0"
    by code_simp
  then obtain s1 where h4: "GetVictimPage oldest
        (run oldest [Fetch 7, Fetch 7, UnpinPage 7 True, UnpinPage 7 False]
          (new_BufferPoolManager 2 1 new_DiskManager [])) = Some (0, s1)"
    by auto
  from pin_counts_and_victims [OF oldest_contract refl h2, of 1 2 new_DiskManager]
    oldest_contract h2 h3 h4
  show ?thesis by blast
qed

subsection \<open>C5\<close>




subsection \<open>C6\<close>

text \<open>
  C6, as amended: \<open>unpin(id, is_dirty)\<close> returns true if and only if the identifier is
  resident and the pin count of its frame is 0 or 1 at the call, that is, zero after the
  saturating decrement; whenever it returns true the identifier has been removed from the
  page table. On a non-resident identifier it returns false and changes nothing. For a
  resident page whose pin count was already zero no decrement occurs: no frame changes.
\<close>

theorem unpin_result:
  "(fst (UnpinPageImpl pid dirty s) \<longleftrightarrow>
      (\<exists>f. map_of (page_table s) pid = Some f \<and>
           (pin_count (pages s ! f) = 0 \<or> pin_count (pages s ! f) = 1))) \<and>
   (fst (UnpinPageImpl pid dirty s) \<longrightarrow>
      map_of (page_table (snd (UnpinPageImpl pid dirty s))) pid = None) \<and>
   (map_of (page_table s) pid = None \<longrightarrow> UnpinPageImpl pid dirty s = (False, s)) \<and>
   (\<forall>f. map_of (page_table s) pid = Some f \<and> pin_count (pages s ! f) = 0 \<longrightarrow>
        pages (snd (UnpinPageImpl pid dirty s)) = pages s)"
  by (auto simp: UnpinPageImpl_def Let_def AList.delete_conv' split: option.splits)

theorem unpin_result_witness:
  "map_of (page_table pool1) 7 = None \<and> UnpinPageImpl 7 False pool1 = (False, pool1) \<and>
   map_of (page_table (run oldest [NewPage] pool1)) 0 = Some 0 \<and>
   pin_count (pages (run oldest [NewPage] pool1) ! 0) = 0 \<and>
   fst (UnpinPageImpl 0 False (run oldest [NewPage] pool1)) \<and>
   map_of (page_table (snd (UnpinPageImpl 0 False (run oldest [NewPage] pool1)))) 0 = None \<and>
   pages (snd (UnpinPageImpl 0 False (run oldest [NewPage] pool1))) = pages (run oldest [NewPage] pool1)"
proof -
  have h1: "map_of (page_table pool1) 7 = None" by code_simp
  have h2: "map_of (page_table (run oldest [NewPage] pool1)) 0 = Some 0" by code_simp
  have h3: "pin_count (pages (run oldest [NewPage] pool1) ! 0) = 0" by code_simp
  from unpin_result [of 7 False pool1] unpin_result [of 0 False "run oldest [NewPage] pool1"]
    h1 h2 h3
  show ?thesis by blast
qed

text \<open>
  The claim as written fails: with page 7 fetched twice, \<open>unpin(7, false)\<close> finds the
  page resident and returns false; and on page 0, just created by \<open>new_page\<close> and so
  resident with pin count zero, \<open>unpin(0, false)\<close> returns true and removes the page
  from the page table.
\<close>

theorem unpin_result_not_residency:
  "map_of (page_table (run oldest [Fetch 7, Fetch 7] pool1)) 7 = Some 0 \<and>
   \<not> fst (UnpinPageImpl 7 False (run oldest [Fetch 7, Fetch 7] pool1)) \<and>
   map_of (page_table (run oldest [NewPage] pool1)) 0 = Some 0 \<and>
   pin_count (pages (run oldest [NewPage] pool1) ! 0) = 0 \<and>
   fst (UnpinPageImpl 0 False (run oldest [NewPage] pool1)) \<and>
   map_of (page_table (snd (UnpinPageImpl 0 False (run oldest [NewPage] pool1)))) 0 = None"
  by code_simp

subsection \<open>C7\<close>

text \<open>
  C7 is about the frames whose dirty flag is true. No operation sets the flag, so no state
  reached from a freshly constructed pool has such a frame (\<open>never_dirty\<close> above), and
  the property has no instance to state it on. What \<open>FetchPageImpl\<close> does with the flag
  of a victim is in \<open>FetchPageImpl_miss\<close>.
\<close>

subsection \<open>C8\<close>

text \<open>
  C8, as amended: a \<open>fetch\<close> of a resident identifier issues no read; a \<open>fetch\<close> of a
  non-resident identifier issues exactly one read, of that identifier, when a victim frame
  is obtained; when none is (the pool is exhausted), the call fails, issues no read and
  changes nothing.
\<close>

theorem fetch_reads:
  "filter is_read (events (disk_manager (snd (FetchPageImpl victim pid s)))) =
   filter is_read (events (disk_manager s)) @
     (if map_of (page_table s) pid = None \<and> GetVictimPage victim s \<noteq> None then [ReadEv pid] else []) \<and>
   (map_of (page_table s) pid = None \<and> GetVictimPage victim s = None \<longrightarrow>
      FetchPageImpl victim pid s = (None, s))"
  by (auto simp: FetchPageImpl_def Let_def ReadPage_def WritePage_def
      dest: GetVictimPage_keeps_frames split: option.splits prod.splits)

theorem fetch_reads_witness:
  "map_of (page_table pool1) 7 = None \<and> GetVictimPage oldest pool1 \<noteq> None \<and>
   filter is_read (events (disk_manager (snd (FetchPageImpl oldest 7 pool1)))) =
   filter is_read (events (disk_manager pool1)) @ [ReadEv 7] \<and>
   map_of (page_table (run oldest [Fetch 7] pool1)) 8 = None \<and>
   GetVictimPage oldest (run oldest [Fetch 7] pool1) = None \<and>
   FetchPageImpl oldest 8 (run oldest [Fetch 7] pool1) = (None, run oldest [Fetch 7] pool1) \<and>
   filter is_read (events (disk_manager (snd (FetchPageImpl oldest 8 (run oldest [Fetch 7] pool1))))) =
   filter is_read (events (disk_manager (run oldest [Fetch 7] pool1)))"
proof -
  have h1: "map_of (page_table pool1) 7 = None" by code_simp
  have h2: "GetVictimPage oldest pool1 \<noteq> None" by code_simp
  have h3: "map_of (page_table (run oldest [Fetch 7] pool1)) 8 = None" by code_simp
  have h4: "GetVictimPage oldest (run oldest [Fetch 7] pool1) = None" by code_simp
  from fetch_reads [of oldest 7 pool1] fetch_reads [of oldest 8 "run oldest [Fetch 7] pool1"]
    h1 h2 h3 h4
  show ?thesis by simp
qed

text \<open>
  The claim as written fails: with the only frame pinned by page 7, \<open>fetch(8)\<close> finds 8
  not resident, fails, and the persistent store receives no call.
\<close>

theorem fetch_exhausted_no_read:
  "map_of (page_table (run oldest [Fetch 7] pool1)) 8 = None \<and>
   fst (FetchPageImpl oldest 8 (run oldest [Fetch 7] pool1)) = None \<and>
   events (disk_manager (snd (FetchPageImpl oldest 8 (run oldest [Fetch 7] pool1)))) =
   events (disk_manager (run oldest [Fetch 7] pool1))"
  by code_simp

subsection \<open>C9\<close>

text \<open>
  C9 says that a \<open>delete_page\<close> that removes a resident page calls the persistent store's
  \<open>deallocate_page\<close> for the identifier, as the comment at the head of
  \<open>DeletePageImpl\<close> asks. The function never calls the persistent store: after
  \<open>new_page\<close> has created page 0, \<open>delete_page(0)\<close> succeeds, the page is gone from
  the page table, what the read of the erased entry yields is on the free list, and the
  store has only seen the allocation.
\<close>

theorem delete_never_deallocates:
  "map_of (page_table (run oldest [NewPage] pool1)) 0 = Some 0 \<and>
   fst (DeletePageImpl stale 0 (run oldest [NewPage] pool1)) \<and>
   map_of (page_table (snd (DeletePageImpl stale 0 (run oldest [NewPage] pool1)))) 0 = None \<and>
   free_list (snd (DeletePageImpl stale 0 (run oldest [NewPage] pool1))) = [stale] \<and>
   events (disk_manager (snd (DeletePageImpl stale 0 (run oldest [NewPage] pool1)))) = [AllocateEv 0]"
  by code_simp

subsection \<open>C10\<close>

text \<open>
  C10: \<open>delete_page\<close> on an identifier that is resident with a pin count greater than 0
  returns failure and leaves the whole pool (page table, free list, every frame's
  identifier, pin count, dirty flag and buffer) unchanged.
\<close>

theorem delete_pinned_unchanged:
  "map_of (page_table s) pid = Some f \<Longrightarrow> 0 < pin_count (pages s ! f) \<Longrightarrow>
   DeletePageImpl stale pid s = (False, s)"
  by (simp add: DeletePageImpl_def)

theorem delete_pinned_unchanged_witness:
  "map_of (page_table (run oldest [Fetch 7] pool1)) 7 = Some 0 \<and>
   0 < pin_count (pages (run oldest [Fetch 7] pool1) ! 0) \<and>
   DeletePageImpl 0 7 (run oldest [Fetch 7] pool1) = (False, run oldest [Fetch 7] pool1)"
proof -
  have h1: "map_of (page_table (run oldest [Fetch 7] pool1)) 7 = Some 0" by code_simp
  have h2: "0 < pin_count (pages (run oldest [Fetch 7] pool1) ! 0)" by code_simp
  from delete_pinned_unchanged [OF h1 h2] h1 h2 show ?thesis by blast
qed

end
